theory Spec2Isabelle
  imports Main "HOL-Library.Sublist" "HOL-Library.AList"
begin

section \<open>Python strings and the built-ins the converter calls\<close>

text \<open>
  A Python \<open>str\<close> is a sequence of Unicode code points; a code point is modelled as
  a natural number and a string as a list of them (\<open>len\<close> counts code points, and
  \<open>ord(char)\<close> is the number itself). \<open>asc\<close> writes an ASCII literal of the source.
\<close>

type_synonym pystr = "nat list"

definition asc :: "string \<Rightarrow> pystr" where
  "asc s = map of_char s"

text \<open>
  \<open>str.isspace\<close> for one character: the 29 code points for which CPython 3.11
  answers True (tab to carriage return, the four separators 28-31, space, NEL, NBSP,
  the Ogham space mark, U+2000 to U+200A, the line and paragraph separators, U+202F,
  U+205F and the ideographic space).
\<close>

definition isspace :: "nat \<Rightarrow> bool" where
  "isspace c \<longleftrightarrow>
     (9 \<le> c \<and> c \<le> 13) \<or> (28 \<le> c \<and> c \<le> 32) \<or> c = 133 \<or> c = 160 \<or> c = 5760 \<or>
     (8192 \<le> c \<and> c \<le> 8202) \<or> c = 8232 \<or> c = 8233 \<or> c = 8239 \<or> c = 8287 \<or> c = 12288"

text \<open>\<open>s.strip()\<close> and \<open>s.strip(chars)\<close>: drop the characters of a class at both ends.\<close>

definition strip_by :: "(nat \<Rightarrow> bool) \<Rightarrow> pystr \<Rightarrow> pystr" where
  "strip_by p s = rev (dropWhile p (rev (dropWhile p s)))"

definition strip :: "pystr \<Rightarrow> pystr" where
  "strip s = strip_by isspace s"

text \<open>
  \<open>s.replace(old, new)\<close>: the occurrences of \<open>old\<close> are found from the left and do
  not overlap. The counter of \<open>replace_from\<close> is the number of characters of a matched
  occurrence still to be skipped. For an empty \<open>old\<close> Python puts \<open>new\<close> around every
  character.
\<close>

fun replace_from :: "pystr \<Rightarrow> pystr \<Rightarrow> nat \<Rightarrow> pystr \<Rightarrow> pystr" where
  "replace_from old new k [] = []"
| "replace_from old new (Suc k) (c # cs) = replace_from old new k cs"
| "replace_from old new 0 (c # cs) =
     (if prefix old (c # cs) then new @ replace_from old new (length old - 1) cs
      else c # replace_from old new 0 cs)"

definition replace :: "pystr \<Rightarrow> pystr \<Rightarrow> pystr \<Rightarrow> pystr" where
  "replace old new s =
     (if old = [] then new @ concat (map (\<lambda>c. c # new) s) else replace_from old new 0 s)"

text \<open>
  \<open>s.split()\<close> without a separator: the maximal runs of characters that are not
  whitespace, in order. The first argument of \<open>split_acc\<close> is the run being read.
\<close>

fun split_acc :: "pystr \<Rightarrow> pystr \<Rightarrow> pystr list" where
  "split_acc w [] = (if w = [] then [] else [w])"
| "split_acc w (c # cs) =
     (if isspace c then (if w = [] then split_acc [] cs else w # split_acc [] cs)
      else split_acc (w @ [c]) cs)"

definition split_ws :: "pystr \<Rightarrow> pystr list" where
  "split_ws s = split_acc [] s"

text \<open>
  \<open>s.split(sep)\<close> for a one-character separator: every separator ends a field, and
  empty fields are kept.
\<close>

fun split_sep_acc :: "pystr \<Rightarrow> nat \<Rightarrow> pystr \<Rightarrow> pystr list" where
  "split_sep_acc w sep [] = [w]"
| "split_sep_acc w sep (c # cs) =
     (if c = sep then w # split_sep_acc [] sep cs else split_sep_acc (w @ [c]) sep cs)"

definition split_sep :: "nat \<Rightarrow> pystr \<Rightarrow> pystr list" where
  "split_sep sep s = split_sep_acc [] sep s"

text \<open>\<open>sep.join(parts)\<close>.\<close>

fun join :: "pystr \<Rightarrow> pystr list \<Rightarrow> pystr" where
  "join sep [] = []"
| "join sep [w] = w"
| "join sep (w # v # ws) = w @ sep @ join sep (v # ws)"

text \<open>\<open>str(n)\<close> for an integer that is not negative: its decimal digits.\<close>

fun str_nat :: "nat \<Rightarrow> pystr" where
  "str_nat n = (if n < 10 then [48 + n] else str_nat (n div 10) @ [48 + n mod 10])"

declare str_nat.simps [simp del]

text \<open>
  The exceptions a run can end with. \<open>ValueError\<close> carries the message the converter
  gives it; the \<open>ValueError\<close> of \<open>list.index\<close> and of \<open>int\<close> are kept apart from it
  and carry the offending argument. \<open>OtherError\<close> is any other exception of the file
  and csv layer, with its \<open>str()\<close>.
\<close>

datatype exn =
    IndexError
  | KeyError
  | TypeError
  | RecursionError
  | StopIteration
  | ValueError pystr
  | NotInList pystr
  | InvalidLiteral pystr
  | OtherError pystr

text \<open>\<open>xs[i]\<close> for a constant index that is not negative.\<close>

definition getitem :: "'a list \<Rightarrow> nat \<Rightarrow> exn + 'a" where
  "getitem xs i = (if i < length xs then Inr (xs ! i) else Inl IndexError)"

text \<open>Sequencing: an exception of the first step skips the rest.\<close>

definition bind_res :: "exn + 'a \<Rightarrow> ('a \<Rightarrow> exn + 'b) \<Rightarrow> exn + 'b" where
  "bind_res m f = (case m of Inl e \<Rightarrow> Inl e | Inr x \<Rightarrow> f x)"

text \<open>A loop whose body can raise: the first exception ends it.\<close>

fun map_res :: "('a \<Rightarrow> exn + 'b) \<Rightarrow> 'a list \<Rightarrow> exn + 'b list" where
  "map_res f [] = Inr []"
| "map_res f (x # xs) =
     (case f x of
        Inl e \<Rightarrow> Inl e
      | Inr y \<Rightarrow> (case map_res f xs of Inl e \<Rightarrow> Inl e | Inr ys \<Rightarrow> Inr (y # ys)))"

text \<open>
  What the interpreter and its library supply and the repository does not contain:
  \<open>str.isalnum\<close> on one character and \<open>str.lower\<close> (both read the Unicode
  database; \<open>lower\<close> is not character by character), \<open>int\<close> on a string
  (\<open>None\<close> where it raises \<open>ValueError\<close>), and the csv module's write and read of one
  row through a writer (\<open>False\<close> where either raises).
\<close>

record runtime =
  str_isalnum :: "nat \<Rightarrow> bool"
  str_lower :: "pystr \<Rightarrow> pystr"
  int_parse :: "pystr \<Rightarrow> int option"
  csv_roundtrip :: "pystr list \<Rightarrow> bool"

section \<open>The text sanitizer: \<open>clean_text\<close>\<close>

text \<open>
  The replacement table, in the order of the dictionary literal. As the source file
  stands, its first two entries both have the key \<open>"\<close> (code point 34) and the value
  \<open>"\<close>, and the two lines that follow them read as one entry whose key is the
  triple-quoted string between the two \<open>'''\<close>: a colon, a space, \<open>"'",\<close>, eight spaces,
  \<open># Smart apostrophes\<close>, a newline and twelve spaces; its value is an apostrophe.
\<close>

definition smart_apostrophes_key :: pystr where
  "smart_apostrophes_key =
     [58, 32, 34, 39, 34, 44, 32, 32, 32, 32, 32, 32, 32, 32, 35, 32,
      83, 109, 97, 114, 116, 32, 97, 112, 111, 115, 116, 114, 111, 112, 104, 101, 115,
      10, 32, 32, 32, 32, 32, 32, 32, 32, 32, 32, 32, 32]"

definition replacements :: "(pystr \<times> pystr) list" where
  "replacements =
     [([34], [34]),
      (smart_apostrophes_key, [39]),
      ([8211], [45]),
      ([8212], [45]),
      ([8230], [46, 46, 46]),
      ([8203], []),
      ([8204], []),
      ([8205], []),
      ([65279], []),
      ([13], [10]),
      ([9], [32])]"

text \<open>
  The six letters of the allow-list literal, by code point: U+00E6, U+00F8, U+00E5 and
  their capitals U+00C6, U+00D8, U+00C5.
\<close>

definition nordic :: pystr where
  "nordic = [230, 248, 229, 198, 216, 197]"

definition keep_char :: "nat \<Rightarrow> bool" where
  "keep_char c \<longleftrightarrow> (32 \<le> c \<and> c \<le> 126) \<or> c = 10 \<or> c \<in> set nordic"

definition clean_text :: "pystr \<Rightarrow> pystr" where
  "clean_text text =
     (if text = [] then []
      else
        let text1 = strip text;
            text2 = foldl (\<lambda>t (old, new). replace old new t) text1 replacements;
            cleaned = filter keep_char text2
        in join [32] (split_ws cleaned))"

section \<open>The label synthesizer: \<open>clean_label_name\<close>\<close>

text \<open>
  The loop \<open>while '__' in cleaned: cleaned = cleaned.replace('__', '_')\<close>. Each round
  shortens the string, which is its termination.
\<close>

lemma replace_from_length:
  "old \<noteq> [] \<Longrightarrow> length new \<le> length old \<Longrightarrow>
     length (replace_from old new k s) \<le> length s - k"
proof (induction old new k s rule: replace_from.induct)
  case (1 old new k)
  then show ?case by simp
next
  case (2 old new k c cs)
  then show ?case by simp
next
  case (3 old new c cs)
  show ?case
  proof (cases "prefix old (c # cs)")
    case True
    then have "length old \<le> Suc (length cs)"
      using prefix_length_le by fastforce
    moreover have "length (replace_from old new (length old - 1) cs) \<le> length cs - (length old - 1)"
      using 3 True by simp
    ultimately show ?thesis
      using True "3.prems" by (cases old) auto
  next
    case False
    then show ?thesis using 3 by auto
  qed
qed

lemma replace_from_shorter:
  "sublist old s \<Longrightarrow> length new < length old \<Longrightarrow>
     length (replace_from old new 0 s) < length s"
proof (induction s)
  case Nil
  then show ?case by simp
next
  case (Cons c cs)
  have ne: "old \<noteq> []" using Cons.prems(2) by auto
  show ?case
  proof (cases "prefix old (c # cs)")
    case True
    then have "length old \<le> Suc (length cs)"
      using prefix_length_le by fastforce
    moreover have "length (replace_from old new (length old - 1) cs) \<le> length cs - (length old - 1)"
      using ne Cons.prems(2) by (intro replace_from_length) auto
    ultimately show ?thesis
      using True Cons.prems(2) by auto
  next
    case False
    then have "sublist old cs"
      using Cons.prems(1) by (simp add: sublist_Cons_right)
    then show ?thesis
      using False Cons.IH Cons.prems(2) by simp
  qed
qed

function collapse_underscores :: "pystr \<Rightarrow> pystr" where
  "collapse_underscores s =
     (if sublist [95, 95] s then collapse_underscores (replace [95, 95] [95] s) else s)"
  by pat_completeness auto
termination
  by (relation "measure length") (auto simp: replace_def replace_from_shorter)

declare collapse_underscores.simps [simp del]

definition label_char :: "runtime \<Rightarrow> nat \<Rightarrow> bool" where
  "label_char rt c \<longleftrightarrow> str_isalnum rt c \<or> c = 95 \<or> c \<in> set nordic"

definition clean_label_name :: "runtime \<Rightarrow> pystr \<Rightarrow> pystr" where
  "clean_label_name rt name =
     (if name = [] then []
      else
        let cleaned1 = replace [45] [95] (replace [32] [95] name);
            cleaned2 = filter (label_char rt) cleaned1;
            cleaned3 = collapse_underscores cleaned2;
            cleaned4 = strip_by (\<lambda>c. c = 95) cleaned3
        in str_lower rt cleaned4)"

section \<open>The hierarchy resolver: \<open>calculate_indents\<close>\<close>

text \<open>
  A source row is the list of strings \<open>csv.reader\<close> yields for one record; nothing
  checks its length, so every index into it can raise \<open>IndexError\<close>. The dictionary
  \<open>indents\<close> is an association list in insertion order (the order
  \<open>list(indents.keys())\<close> returns): assigning to a key that is present keeps its
  place, assigning to a new key appends it, which is \<open>AList.update\<close>; a lookup is
  \<open>map_of\<close>. The dictionary \<open>child_tasks\<close> is only looked up, so it is a map.
\<close>

type_synonym row = "pystr list"

type_synonym indent_dict = "(pystr \<times> nat) list"

type_synonym child_dict = "pystr \<rightharpoonup> pystr list"

text \<open>The first loop: the root identifiers and the children of every parent identifier.\<close>

fun separate_tasks ::
  "row list \<Rightarrow> pystr list \<Rightarrow> child_dict \<Rightarrow> exn + (pystr list \<times> child_dict)" where
  "separate_tasks [] root_tasks child_tasks = Inr (root_tasks, child_tasks)"
| "separate_tasks (task # tasks) root_tasks child_tasks =
     bind_res (getitem task 22) (\<lambda>task_id.
     bind_res (getitem task 23) (\<lambda>parent_id.
       if parent_id = [] then separate_tasks tasks (root_tasks @ [task_id]) child_tasks
       else
         separate_tasks tasks root_tasks
           (child_tasks(parent_id \<mapsto>
              (case child_tasks parent_id of None \<Rightarrow> [] | Some cs \<Rightarrow> cs) @ [task_id]))))"

text \<open>
  The nested function \<open>set_indent_level\<close> calls itself once per level of nesting.
  Its first argument is the number of further Python frames the interpreter allows
  (the recursion limit less the depth of the caller): where it is used up the
  interpreter raises \<open>RecursionError\<close>. \<open>set_indent_levels\<close> is the \<open>for\<close> loop over a
  list of identifiers, which both the loop over the children and the loop over the
  roots are.
\<close>

fun set_indent_level ::
      "nat \<Rightarrow> child_dict \<Rightarrow> pystr \<Rightarrow> nat \<Rightarrow> indent_dict \<Rightarrow> exn + indent_dict"
  and set_indent_levels ::
      "nat \<Rightarrow> child_dict \<Rightarrow> pystr list \<Rightarrow> nat \<Rightarrow> indent_dict \<Rightarrow> exn + indent_dict" where
  "set_indent_level 0 child_tasks task_id level indents = Inl RecursionError"
| "set_indent_level (Suc d) child_tasks task_id level indents =
     (let indents' = AList.update task_id (min level 4) indents
      in case child_tasks task_id of
           None \<Rightarrow> Inr indents'
         | Some children \<Rightarrow> set_indent_levels d child_tasks children (level + 1) indents')"
| "set_indent_levels d child_tasks [] level indents = Inr indents"
| "set_indent_levels d child_tasks (task_id # rest) level indents =
     (case set_indent_level d child_tasks task_id level indents of
        Inl e \<Rightarrow> Inl e
      | Inr indents' \<Rightarrow> set_indent_levels d child_tasks rest level indents')"

definition calculate_indents :: "nat \<Rightarrow> row list \<Rightarrow> exn + indent_dict" where
  "calculate_indents depth tasks =
     (case separate_tasks tasks [] Map.empty of
        Inl e \<Rightarrow> Inl e
      | Inr (root_tasks, child_tasks) \<Rightarrow> set_indent_levels depth child_tasks root_tasks 1 [])"

section \<open>The chunker: \<open>process_chunk\<close> and \<open>split_tasks_into_chunks\<close>\<close>

definition TASKS_PER_PROJECT :: nat where
  "TASKS_PER_PROJECT = 300"

definition part_tag :: "nat \<Rightarrow> nat \<Rightarrow> pystr" where
  "part_tag chunk_number total_chunks =
     asc ''part_'' @ str_nat chunk_number @ asc ''_of_'' @ str_nat total_chunks"

definition process_task :: "nat \<Rightarrow> nat \<Rightarrow> row \<Rightarrow> exn + row" where
  "process_task chunk_number total_chunks task =
     (if total_chunks > 1 then
        (case getitem task 4 of
           Inl e \<Rightarrow> Inl e
         | Inr tags \<Rightarrow>
             if tags \<noteq> [] then Inr (task[4 := tags @ [44] @ part_tag chunk_number total_chunks])
             else Inr (task[4 := part_tag chunk_number total_chunks]))
      else Inr task)"

definition process_chunk :: "row list \<Rightarrow> nat \<Rightarrow> nat \<Rightarrow> exn + row list" where
  "process_chunk tasks chunk_number total_chunks =
     map_res (process_task chunk_number total_chunks) tasks"

text \<open>
  \<open>ceil(len(tasks) / 300)\<close> divides in floating point; the quotient of a length by
  300 is rounded to a double that lies on the same side of every integer as long as the
  length is below \<open>2 ^ 50\<close>, so the number of chunks is the integer ceiling.
  \<open>tasks[start:end]\<close> is \<open>take (end - start) (drop start tasks)\<close>.
\<close>

definition num_chunks :: "nat \<Rightarrow> nat" where
  "num_chunks n = (n + (TASKS_PER_PROJECT - 1)) div TASKS_PER_PROJECT"

definition split_tasks_into_chunks :: "row list \<Rightarrow> exn + row list list" where
  "split_tasks_into_chunks tasks =
     (if length tasks \<le> TASKS_PER_PROJECT then Inr [tasks]
      else
        map_res
          (\<lambda>i. let start_idx = i * TASKS_PER_PROJECT;
                   end_idx = min ((i + 1) * TASKS_PER_PROJECT) (length tasks)
               in process_chunk (take (end_idx - start_idx) (drop start_idx tasks))
                    (i + 1) (num_chunks (length tasks)))
          [0 ..< num_chunks (length tasks)])"

section \<open>The record transformer\<close>

definition PRIORITY_MAP :: "(int \<times> nat) list" where
  "PRIORITY_MAP = [(0, 4), (5, 3), (3, 2), (1, 1)]"

text \<open>\<open>d.get(key, default)\<close>.\<close>

definition dict_get :: "('k \<times> 'v) list \<Rightarrow> 'k \<Rightarrow> 'v \<Rightarrow> 'v" where
  "dict_get d k dflt = (case map_of d k of None \<Rightarrow> dflt | Some v \<Rightarrow> v)"

definition task_labels :: "runtime \<Rightarrow> pystr \<Rightarrow> pystr \<Rightarrow> pystr \<Rightarrow> pystr \<Rightarrow> pystr list" where
  "task_labels rt list_name folder_name status tags =
     (if list_name \<noteq> [] then [asc ''list_'' @ clean_label_name rt list_name] else []) @
     (if folder_name \<noteq> [] then [asc ''folder_'' @ clean_label_name rt folder_name] else []) @
     (if status = asc ''2'' then [asc ''completed''] else []) @
     (if tags \<noteq> [] then map (\<lambda>tag. clean_label_name rt (strip tag)) (split_sep 44 tags) else [])"

text \<open>
  \<open>create_todoist_task\<close>. The row it returns is empty where the cleaned title is;
  the indices are read in the order of the source, so a short row raises where the
  source does.
\<close>

definition task_priority :: "runtime \<Rightarrow> bool \<Rightarrow> row \<Rightarrow> exn + pystr" where
  "task_priority rt include_priority task =
     (if include_priority then
        bind_res (getitem task 11) (\<lambda>p.
          case int_parse rt p of
            None \<Rightarrow> Inl (InvalidLiteral p)
          | Some code \<Rightarrow> Inr (str_nat (dict_get PRIORITY_MAP code 4)))
      else Inr (asc ''4''))"

definition create_todoist_task :: "runtime \<Rightarrow> bool \<Rightarrow> row \<Rightarrow> nat \<Rightarrow> exn + row" where
  "create_todoist_task rt include_priority task indent =
     bind_res (getitem task 2) (\<lambda>raw_title.
     bind_res (getitem task 5) (\<lambda>raw_content.
       let title = clean_text raw_title; content = clean_text raw_content in
       if title = [] then Inr []
       else
         bind_res (getitem task 1) (\<lambda>list_name.
         bind_res (getitem task 0) (\<lambda>folder_name.
         bind_res (getitem task 12) (\<lambda>status.
         bind_res (getitem task 8) (\<lambda>due_date.
         bind_res (getitem task 4) (\<lambda>tags.
           let labels = task_labels rt list_name folder_name status tags;
               task_content =
                 (if labels \<noteq> [] then title @ [32] @ join [32] (map (\<lambda>label. 64 # label) labels)
                  else title)
           in
             bind_res (task_priority rt include_priority task) (\<lambda>priority.
               Inr [asc ''task'', task_content, content, priority, str_nat indent, [], [],
                    due_date, asc ''en'', asc ''UTC'', [], asc ''None'']))))))))"

text \<open>
  \<open>validate_csv_row\<close> builds its writer over \<open>output = []\<close>. \<open>csv.writer\<close> takes an
  object with a \<open>write\<close> method and raises \<open>TypeError\<close> for any other; the \<open>try\<close>
  turns every exception into \<open>False\<close>. What follows the construction of the writer
  is the csv module's, \<open>csv_roundtrip\<close>.
\<close>

datatype pyobject = ListObject "pystr list" | TextBuffer pystr

definition has_write_method :: "pyobject \<Rightarrow> bool" where
  "has_write_method obj = (case obj of ListObject xs \<Rightarrow> False | TextBuffer s \<Rightarrow> True)"

definition csv_writer :: "pyobject \<Rightarrow> exn + pyobject" where
  "csv_writer csvfile = (if has_write_method csvfile then Inr csvfile else Inl TypeError)"

definition validate_csv_row :: "runtime \<Rightarrow> row \<Rightarrow> bool" where
  "validate_csv_row rt r =
     (case csv_writer (ListObject []) of
        Inl e \<Rightarrow> False
      | Inr writer \<Rightarrow> csv_roundtrip rt r)"

definition create_note_row :: "runtime \<Rightarrow> pystr \<Rightarrow> row option" where
  "create_note_row rt content =
     (let cleaned_content = clean_text content;
          r = [asc ''note'', cleaned_content, [], [], [], [], [], [], asc ''en'', asc ''UTC'',
               [], asc ''None'']
      in if \<not> validate_csv_row rt r then None else Some r)"

text \<open>
  The body of the loop over a chunk in \<open>convert\<close>: the rows one source row adds to
  \<open>todoist_tasks\<close>. \<open>indents[task[22]]\<close> raises \<open>KeyError\<close> for an identifier the
  index lacks.
\<close>

definition convert_task :: "runtime \<Rightarrow> bool \<Rightarrow> indent_dict \<Rightarrow> row \<Rightarrow> exn + row list" where
  "convert_task rt include_priority indents task =
     bind_res (getitem task 22) (\<lambda>task_id.
     bind_res (case map_of indents task_id of None \<Rightarrow> Inl KeyError | Some indent \<Rightarrow> Inr indent)
       (\<lambda>indent.
     bind_res (create_todoist_task rt include_priority task indent) (\<lambda>todoist_task.
       let rows = (if todoist_task \<noteq> [] then [todoist_task] else []) in
       bind_res (getitem task 5) (\<lambda>description.
         if description \<noteq> [] then
           (case create_note_row rt description of
              None \<Rightarrow> Inr rows
            | Some note_row \<Rightarrow> if note_row \<noteq> [] then Inr (rows @ [note_row]) else Inr rows)
         else Inr rows))))"

definition convert_chunk :: "runtime \<Rightarrow> bool \<Rightarrow> indent_dict \<Rightarrow> row list \<Rightarrow> exn + row list" where
  "convert_chunk rt include_priority indents chunk =
     (case map_res (convert_task rt include_priority indents) chunk of
        Inl e \<Rightarrow> Inl e
      | Inr rowss \<Rightarrow> Inr (concat rowss))"

section \<open>Reading the export: \<open>read_ticktick_csv\<close>\<close>

definition TICKTICK_HEADER :: row where
  "TICKTICK_HEADER =
     [asc ''Folder Name'', asc ''List Name'', asc ''Title'', asc ''Kind'', asc ''Tags'',
      asc ''Content'', asc ''Is Check list'', asc ''Start Date'', asc ''Due Date'',
      asc ''Reminder'', asc ''Repeat'', asc ''Priority'', asc ''Status'', asc ''Created Time'',
      asc ''Completed Time'', asc ''Order'', asc ''Timezone'', asc ''Is All Day'',
      asc ''Is Floating'', asc ''Column Name'', asc ''Column Order'', asc ''View Mode'',
      asc ''taskId'', asc ''parentId'']"

definition TODOIST_HEADER :: row where
  "TODOIST_HEADER =
     [asc ''TYPE'', asc ''CONTENT'', asc ''DESCRIPTION'', asc ''PRIORITY'', asc ''INDENT'',
      asc ''AUTHOR'', asc ''RESPONSIBLE'', asc ''DATE'', asc ''DATE_LANG'', asc ''TIMEZONE'',
      asc ''DURATION'', asc ''DURATION_UNIT'']"

text \<open>
  Opening, decoding and csv parsing are the library's. What one attempt to read the
  file under one encoding gives the converter is modelled as a value: the attempt
  fails before a header row is read (while the six lines are skipped or the header row
  is parsed), or it yields a header row and then either fails or yields the remaining
  rows. A failure is a \<open>UnicodeDecodeError\<close> or another exception; the end of the
  file inside the first seven lines is \<open>StopIteration\<close>.
\<close>

datatype failure = DecodeFailure | EndOfFile | Failure pystr

datatype attempt = Failed failure | Header row "failure + row list"

text \<open>
  The exception a failure propagates as, and its \<open>str()\<close>. A decode failure of the
  first attempt never propagates: it starts the second attempt.
\<close>

definition raise_failure :: "failure \<Rightarrow> exn" where
  "raise_failure f =
     (case f of
        DecodeFailure \<Rightarrow> OtherError (asc ''UnicodeDecodeError'')
      | EndOfFile \<Rightarrow> StopIteration
      | Failure msg \<Rightarrow> OtherError msg)"

definition header_message :: pystr where
  "header_message = asc ''Invalid CSV file: Header doesn't match TickTick format''"

definition encoding_message :: pystr where
  "encoding_message = asc ''Could not read file with UTF-8 or ISO-8859-1 encoding: ''"

text \<open>The body of one \<open>with codecs.open(...)\<close> block.\<close>

definition read_with :: "attempt \<Rightarrow> (failure + exn) + row list" where
  "read_with a =
     (case a of
        Failed f \<Rightarrow> Inl (Inl f)
      | Header header rest \<Rightarrow>
          if header \<noteq> TICKTICK_HEADER then Inl (Inr (ValueError header_message))
          else (case rest of Inl f \<Rightarrow> Inl (Inl f) | Inr rows \<Rightarrow> Inr rows))"

text \<open>
  \<open>str(e)\<close> for what the second block can raise. Latin-1 decodes every byte, so a
  decode failure has no message to give there; the model gives it the class name.
\<close>

definition str_raised :: "failure + exn \<Rightarrow> pystr" where
  "str_raised r =
     (case r of
        Inl DecodeFailure \<Rightarrow> asc ''UnicodeDecodeError''
      | Inl EndOfFile \<Rightarrow> []
      | Inl (Failure msg) \<Rightarrow> msg
      | Inr (ValueError msg) \<Rightarrow> msg
      | Inr e \<Rightarrow> [])"

definition read_ticktick_csv :: "attempt \<Rightarrow> attempt \<Rightarrow> exn + row list" where
  "read_ticktick_csv utf8 latin1 =
     (case read_with utf8 of
        Inr rows \<Rightarrow> Inr rows
      | Inl (Inr e) \<Rightarrow> Inl e
      | Inl (Inl DecodeFailure) \<Rightarrow>
          (case read_with latin1 of
             Inr rows \<Rightarrow> Inr rows
           | Inl r \<Rightarrow> Inl (ValueError (encoding_message @ str_raised r)))
      | Inl (Inl f) \<Rightarrow> Inl (raise_failure f))"

section \<open>The orchestrator: \<open>convert\<close>\<close>

text \<open>
  \<open>xs.index(x)\<close>, and \<open>tasks.sort(key=lambda x: task_ids.index(x[22]))\<close>: the key
  of every row is computed first, in order, and an exception of the key function ends
  the sort; the rows are then sorted by key, rows of equal keys keeping their order
  (\<open>sort_key\<close> is a stable insertion sort).
\<close>

fun list_index :: "'a list \<Rightarrow> 'a \<Rightarrow> nat option" where
  "list_index [] x = None"
| "list_index (y # ys) x = (if y = x then Some 0 else map_option Suc (list_index ys x))"

definition sort_key_of :: "pystr list \<Rightarrow> row \<Rightarrow> exn + nat" where
  "sort_key_of task_ids task =
     (case getitem task 22 of
        Inl e \<Rightarrow> Inl e
      | Inr task_id \<Rightarrow>
          (case list_index task_ids task_id of None \<Rightarrow> Inl (NotInList task_id) | Some i \<Rightarrow> Inr i))"

definition sort_tasks :: "pystr list \<Rightarrow> row list \<Rightarrow> exn + row list" where
  "sort_tasks task_ids tasks =
     (case map_res (sort_key_of task_ids) tasks of
        Inl e \<Rightarrow> Inl e
      | Inr keys \<Rightarrow> Inr (map snd (sort_key fst (zip keys tasks))))"

text \<open>
  The output directory holds the files the run writes; a file is the list of rows
  given to \<open>writerows\<close>, under its name in the directory. Console messages, and
  failures of the operating system while a file is written, are not modelled.
\<close>

type_synonym files = "pystr \<rightharpoonup> row list"

definition output_name :: "nat \<Rightarrow> nat \<Rightarrow> pystr" where
  "output_name n_chunks i =
     asc ''todoist_import'' @ (if n_chunks > 1 then asc ''_part'' @ str_nat (i + 1) else []) @
     asc ''.csv''"

fun write_chunks ::
  "runtime \<Rightarrow> bool \<Rightarrow> indent_dict \<Rightarrow> nat \<Rightarrow> nat \<Rightarrow> row list list \<Rightarrow> pystr list \<Rightarrow> files \<Rightarrow>
     (exn + pystr list) \<times> files" where
  "write_chunks rt include_priority indents n_chunks i [] output_files fs =
     (Inr output_files, fs)"
| "write_chunks rt include_priority indents n_chunks i (chunk # chunks) output_files fs =
     (case convert_chunk rt include_priority indents chunk of
        Inl e \<Rightarrow> (Inl e, fs)
      | Inr todoist_tasks \<Rightarrow>
          write_chunks rt include_priority indents n_chunks (i + 1) chunks
            (output_files @ [output_name n_chunks i])
            (fs(output_name n_chunks i \<mapsto> TODOIST_HEADER # todoist_tasks)))"

text \<open>
  One run. \<open>mkdir_error\<close> is the exception of \<open>output_dir.mkdir\<close>, if it raises;
  \<open>depth\<close> is the number of frames left for \<open>set_indent_level\<close>.
\<close>

record run =
  include_priority :: bool
  depth :: nat
  mkdir_error :: "exn option"
  utf8_attempt :: attempt
  latin1_attempt :: attempt

definition convert :: "runtime \<Rightarrow> run \<Rightarrow> files \<Rightarrow> (exn + pystr list) \<times> files" where
  "convert rt r fs =
     (case
        (case mkdir_error r of
           Some e \<Rightarrow> Inl e
         | None \<Rightarrow>
             bind_res (read_ticktick_csv (utf8_attempt r) (latin1_attempt r)) (\<lambda>tasks.
             bind_res (calculate_indents (depth r) tasks) (\<lambda>indents.
             bind_res (sort_tasks (map fst indents) tasks) (\<lambda>ordered.
             bind_res (split_tasks_into_chunks ordered) (\<lambda>chunks. Inr (indents, chunks))))))
      of
        Inl e \<Rightarrow> (Inl e, fs)
      | Inr (indents, chunks) \<Rightarrow>
          write_chunks rt (include_priority r) indents (length chunks) 0 chunks [] fs)"

section \<open>A sample of the interpreter's tables, and sample rows\<close>

text \<open>
  Statements at concrete inputs need concrete tables. \<open>sample_runtime\<close> answers as
  CPython 3.11 does for the code points below 256 (ASCII and Latin-1) and for U+0130
  (the capital I with a dot: alphanumeric, and lower-cased to the two characters
  \<open>i\<close> and the combining dot U+0307, which is not alphanumeric). For every other code
  point it answers "not alphanumeric, unchanged by lower", which no statement below
  relies on. Its \<open>int\<close> reads the strings of ASCII digits; its csv round trip succeeds.
\<close>

definition latin1_isalnum :: "nat \<Rightarrow> bool" where
  "latin1_isalnum c \<longleftrightarrow>
     (48 \<le> c \<and> c \<le> 57) \<or> (65 \<le> c \<and> c \<le> 90) \<or> (97 \<le> c \<and> c \<le> 122) \<or>
     c = 170 \<or> c = 178 \<or> c = 179 \<or> c = 181 \<or> c = 185 \<or> c = 186 \<or>
     (188 \<le> c \<and> c \<le> 190) \<or> (192 \<le> c \<and> c \<le> 214) \<or> (216 \<le> c \<and> c \<le> 246) \<or>
     (248 \<le> c \<and> c \<le> 255)"

definition latin1_lower :: "nat \<Rightarrow> nat" where
  "latin1_lower c =
     (if (65 \<le> c \<and> c \<le> 90) \<or> (192 \<le> c \<and> c \<le> 214) \<or> (216 \<le> c \<and> c \<le> 222) then c + 32
      else c)"

definition sample_isalnum :: "nat \<Rightarrow> bool" where
  "sample_isalnum c \<longleftrightarrow> (if c < 256 then latin1_isalnum c else c = 304)"

definition sample_lower :: "pystr \<Rightarrow> pystr" where
  "sample_lower s = concat (map (\<lambda>c. if c = 304 then [105, 775] else [latin1_lower c]) s)"

definition decimal_int :: "pystr \<Rightarrow> int option" where
  "decimal_int s =
     (if s \<noteq> [] \<and> list_all (\<lambda>c. 48 \<le> c \<and> c \<le> 57) s
      then Some (foldl (\<lambda>a c. 10 * a + int (c - 48)) 0 s)
      else None)"

definition sample_runtime :: runtime where
  "sample_runtime =
     \<lparr>str_isalnum = sample_isalnum, str_lower = sample_lower, int_parse = decimal_int,
      csv_roundtrip = (\<lambda>r. True)\<rparr>"

text \<open>
  A well-formed row of 24 fields with the given title, description, priority code,
  task identifier and parent identifier, and no folder, list or tags.
\<close>

definition sample_task :: "pystr \<Rightarrow> pystr \<Rightarrow> pystr \<Rightarrow> pystr \<Rightarrow> pystr \<Rightarrow> row" where
  "sample_task title content priority task_id parent_id =
     [[], [], title, asc ''TEXT'', [], content, asc ''N'', [], [], [], [], priority, asc ''0'',
      [], [], asc ''0'', asc ''UTC'', [], [], [], [], asc ''list'', task_id, parent_id]"

text \<open>A run that reads the given rows under UTF-8, with a valid header.\<close>

definition sample_run :: "bool \<Rightarrow> row list \<Rightarrow> run" where
  "sample_run prio tasks =
     \<lparr>include_priority = prio, depth = 100, mkdir_error = None,
      utf8_attempt = Header TICKTICK_HEADER (Inr tasks), latin1_attempt = Failed EndOfFile\<rparr>"

text \<open>The first field of an output row is its kind, \<open>task\<close> or \<open>note\<close>.\<close>

definition row_kind :: "row \<Rightarrow> pystr option" where
  "row_kind r = (case r of [] \<Rightarrow> None | k # rest \<Rightarrow> Some k)"

definition no_note :: "row list \<Rightarrow> bool" where
  "no_note rows = list_all (\<lambda>r. row_kind r \<noteq> Some (asc ''note'')) rows"

text \<open>The priority table in the words of the specification, as the string written.\<close>

definition priority_table :: "int \<Rightarrow> pystr" where
  "priority_table code =
     (if code = 0 then asc ''4'' else if code = 5 then asc ''3'' else if code = 3 then asc ''2''
      else if code = 1 then asc ''1'' else asc ''4'')"

text \<open>
  The chunker in the words of the specification: a record gets the part tag after its
  tags and a comma, or as its only tag; the chunks of a list of more than 300 records
  are its consecutive slices of 300, each record tagged with the number of its chunk
  (from 1) and the number of chunks.
\<close>

definition add_part_tag :: "nat \<Rightarrow> nat \<Rightarrow> row \<Rightarrow> row" where
  "add_part_tag i k t = t[4 := (if t ! 4 = [] then part_tag i k else t ! 4 @ [44] @ part_tag i k)]"

definition spec_chunks :: "row list \<Rightarrow> row list list" where
  "spec_chunks tasks =
     map (\<lambda>i. map (add_part_tag (i + 1) ((length tasks + 299) div 300))
                (take 300 (drop (300 * i) tasks)))
       [0 ..< (length tasks + 299) div 300]"

text \<open>
  Lower-casing is simple on a set of code points when, on strings over the set, it
  works character by character through a map \<open>g\<close>, and \<open>g\<close> sends a character the
  label filter keeps to a character of the set that the filter keeps, that \<open>g\<close>
  leaves unchanged, that is neither a space nor a hyphen, and that is an underscore only
  if the character was one.
\<close>

definition lowers_simply :: "runtime \<Rightarrow> nat set \<Rightarrow> (nat \<Rightarrow> nat) \<Rightarrow> bool" where
  "lowers_simply rt S g \<longleftrightarrow>
     (\<forall>s. set s \<subseteq> S \<longrightarrow> str_lower rt s = map g s) \<and>
     (\<forall>c \<in> S. label_char rt c \<longrightarrow>
        g c \<in> S \<and> label_char rt (g c) \<and> g (g c) = g c \<and> g c \<noteq> 32 \<and> g c \<noteq> 45 \<and>
        (g c = 95 \<longleftrightarrow> c = 95))"

text \<open>
  The shape of every result of \<open>clean_text\<close>: words of kept characters that are not
  whitespace, joined by single spaces.
\<close>

definition word_char :: "nat \<Rightarrow> bool" where
  "word_char c \<longleftrightarrow> keep_char c \<and> \<not> isspace c"

definition words_ok :: "pystr list \<Rightarrow> bool" where
  "words_ok ws \<longleftrightarrow> list_all (\<lambda>w. w \<noteq> [] \<and> list_all word_char w) ws"

section \<open>Properties of the text sanitizer\<close>

lemma replace_from_absent:
  "c \<in> set old \<Longrightarrow> c \<notin> set s \<Longrightarrow> replace_from old new 0 s = s"
proof (induction s)
  case Nil
  then show ?case by simp
next
  case (Cons a s)
  have "\<not> prefix old (a # s)"
  proof
    assume "prefix old (a # s)"
    then have "set old \<subseteq> set (a # s)" by (rule set_mono_prefix)
    with Cons.prems show False by auto
  qed
  with Cons show ?case by simp
qed

lemma replace_absent: "c \<in> set old \<Longrightarrow> c \<notin> set s \<Longrightarrow> replace old new s = s"
  by (auto simp: replace_def replace_from_absent)

lemma replace_same_char: "replace [a] [a] s = s"
  by (induction s) (auto simp: replace_def)

lemma split_acc_run:
  "list_all (\<lambda>c. \<not> isspace c) u \<Longrightarrow> split_acc w (u @ s) = split_acc (w @ u) s"
  by (induction u arbitrary: w) auto

lemma isspace_32: "isspace 32" and isspace_10: "isspace 10"
  by (simp_all add: isspace_def)

lemma split_ws_join: "words_ok ws \<Longrightarrow> split_ws (join [32] ws) = ws"
proof (induction ws rule: induct_list012)
  case 1
  then show ?case by (simp add: split_ws_def)
next
  case (2 w)
  then have "list_all (\<lambda>c. \<not> isspace c) w" and "w \<noteq> []"
    by (auto simp: words_ok_def word_char_def list_all_iff)
  then show ?case
    using split_acc_run [of w "[]" "[]"] by (simp add: split_ws_def)
next
  case (3 w v ws)
  then have w: "list_all (\<lambda>c. \<not> isspace c) w" "w \<noteq> []" and rest: "words_ok (v # ws)"
    by (auto simp: words_ok_def word_char_def list_all_iff)
  have "split_acc [] (w @ 32 # join [32] (v # ws)) = split_acc w (32 # join [32] (v # ws))"
    using split_acc_run [OF w(1), of "[]"] by simp
  also have "\<dots> = w # split_acc [] (join [32] (v # ws))"
    using w(2) by (simp add: isspace_32)
  finally show ?case
    using "3.IH"(2) [OF rest] by (simp add: split_ws_def)
qed

lemma split_acc_words:
  "list_all keep_char s \<Longrightarrow> list_all word_char w \<Longrightarrow> words_ok (split_acc w s)"
  by (induction s arbitrary: w) (auto simp: words_ok_def word_char_def)

lemma split_ws_words: "list_all keep_char s \<Longrightarrow> words_ok (split_ws s)"
  by (simp add: split_ws_def split_acc_words)

lemma join_chars:
  "words_ok ws \<Longrightarrow> c \<in> set (join [32] ws) \<Longrightarrow> c = 32 \<or> word_char c"
  by (induction ws rule: induct_list012) (auto simp: words_ok_def list_all_iff)

lemma join_nonempty: "words_ok (v # ws) \<Longrightarrow> join [32] (v # ws) \<noteq> []"
  by (cases ws) (auto simp: words_ok_def)

lemma join_hd: "words_ok ws \<Longrightarrow> join [32] ws \<noteq> [] \<Longrightarrow> word_char (hd (join [32] ws))"
  by (induction ws rule: induct_list012) (auto simp: words_ok_def list_all_iff)

lemma join_last: "words_ok ws \<Longrightarrow> join [32] ws \<noteq> [] \<Longrightarrow> word_char (last (join [32] ws))"
proof (induction ws rule: induct_list012)
  case 1
  then show ?case by simp
next
  case (2 w)
  then show ?case by (auto simp: words_ok_def list_all_iff)
next
  case (3 w v ws)
  have rest: "words_ok (v # ws)" using "3.prems"(1) by (simp add: words_ok_def)
  have ne: "join [32] (v # ws) \<noteq> []" using rest by (rule join_nonempty)
  show ?case using "3.IH"(2) [OF rest ne] ne by simp
qed

lemma strip_by_id:
  assumes "s \<noteq> []" "\<not> p (hd s)" "\<not> p (last s)"
  shows "strip_by p s = s"
proof -
  have a: "dropWhile p s = s" using assms(1,2) by (cases s) auto
  have "rev s \<noteq> []" "\<not> p (hd (rev s))" using assms(1,3) by (auto simp: hd_rev)
  then have "dropWhile p (rev s) = rev s" by (cases "rev s") auto
  with a show ?thesis by (simp add: strip_by_def)
qed

lemma word_char_range:
  assumes "word_char c"
  shows "(33 \<le> c \<and> c \<le> 126) \<or> c \<in> set nordic"
proof -
  have "c \<noteq> 32" "c \<noteq> 10"
    using assms isspace_32 isspace_10 by (auto simp: word_char_def)
  moreover have "keep_char c" using assms by (simp add: word_char_def)
  ultimately show ?thesis by (auto simp: keep_char_def)
qed

lemma join_range:
  assumes "words_ok ws" "c \<in> set (join [32] ws)"
  shows "(32 \<le> c \<and> c \<le> 126) \<or> c \<in> set nordic"
  using join_chars [OF assms] word_char_range [of c] by auto

lemma clean_text_fixed:
  assumes ok: "words_ok ws"
  shows "clean_text (join [32] ws) = join [32] ws"
proof (cases "join [32] ws = []")
  case True
  then show ?thesis by (simp add: clean_text_def)
next
  case False
  let ?s = "join [32] ws"
  note rng = join_range [OF ok]
  have a10: "10 \<notin> set ?s" using rng [of 10] by (auto simp: nordic_def)
  have a13: "13 \<notin> set ?s" using rng [of 13] by (auto simp: nordic_def)
  have a9: "9 \<notin> set ?s" using rng [of 9] by (auto simp: nordic_def)
  have a8211: "8211 \<notin> set ?s" using rng [of 8211] by (auto simp: nordic_def)
  have a8212: "8212 \<notin> set ?s" using rng [of 8212] by (auto simp: nordic_def)
  have a8230: "8230 \<notin> set ?s" using rng [of 8230] by (auto simp: nordic_def)
  have a8203: "8203 \<notin> set ?s" using rng [of 8203] by (auto simp: nordic_def)
  have a8204: "8204 \<notin> set ?s" using rng [of 8204] by (auto simp: nordic_def)
  have a8205: "8205 \<notin> set ?s" using rng [of 8205] by (auto simp: nordic_def)
  have a65279: "65279 \<notin> set ?s" using rng [of 65279] by (auto simp: nordic_def)
  have st: "strip ?s = ?s"
    unfolding strip_def
    using False join_hd [OF ok False] join_last [OF ok False]
    by (intro strip_by_id) (auto simp: word_char_def)
  have r1: "replace [34] [34] ?s = ?s" by (rule replace_same_char)
  have r2: "replace smart_apostrophes_key [39] ?s = ?s"
    by (rule replace_absent [of 10]) (simp_all add: smart_apostrophes_key_def a10)
  have r3: "replace [8211] [45] ?s = ?s" by (rule replace_absent [of 8211]) (simp_all add: a8211)
  have r4: "replace [8212] [45] ?s = ?s" by (rule replace_absent [of 8212]) (simp_all add: a8212)
  have r5: "replace [8230] [46, 46, 46] ?s = ?s" by (rule replace_absent [of 8230]) (simp_all add: a8230)
  have r6: "replace [8203] [] ?s = ?s" by (rule replace_absent [of 8203]) (simp_all add: a8203)
  have r7: "replace [8204] [] ?s = ?s" by (rule replace_absent [of 8204]) (simp_all add: a8204)
  have r8: "replace [8205] [] ?s = ?s" by (rule replace_absent [of 8205]) (simp_all add: a8205)
  have r9: "replace [65279] [] ?s = ?s" by (rule replace_absent [of 65279]) (simp_all add: a65279)
  have r10: "replace [13] [10] ?s = ?s" by (rule replace_absent [of 13]) (simp_all add: a13)
  have r11: "replace [9] [32] ?s = ?s" by (rule replace_absent [of 9]) (simp_all add: a9)
  have rp: "foldl (\<lambda>t (old, new). replace old new t) ?s replacements = ?s"
    by (simp add: replacements_def r1 r2 r3 r4 r5 r6 r7 r8 r9 r10 r11)
  have "keep_char c" if "c \<in> set ?s" for c
    using rng [OF that] by (auto simp: keep_char_def)
  then have keep: "filter keep_char ?s = ?s"
    by (simp add: filter_id_conv)
  show ?thesis
    using False by (simp add: clean_text_def st rp keep split_ws_join [OF ok])
qed

lemma clean_text_words: "\<exists>ws. words_ok ws \<and> clean_text x = join [32] ws"
proof (cases "x = []")
  case True
  then have "words_ok [] \<and> clean_text x = join [32] []"
    by (simp add: clean_text_def words_ok_def)
  then show ?thesis by blast
next
  case False
  let ?c = "filter keep_char (foldl (\<lambda>t (old, new). replace old new t) (strip x) replacements)"
  have "list_all keep_char ?c" by (simp add: list_all_iff)
  then have "words_ok (split_ws ?c)" by (rule split_ws_words)
  moreover have "clean_text x = join [32] (split_ws ?c)"
    using False by (simp add: clean_text_def Let_def)
  ultimately show ?thesis by blast
qed

text \<open>
  C9. The text sanitizer is idempotent: \<open>clean_text (clean_text x) = clean_text x\<close>
  for every string \<open>x\<close>.
\<close>

theorem clean_text_idempotent: "clean_text (clean_text x) = clean_text x"
proof -
  obtain ws where "words_ok ws" and "clean_text x = join [32] ws"
    using clean_text_words by blast
  then show ?thesis by (simp add: clean_text_fixed)
qed

section \<open>Properties of the record transformer\<close>

lemma bind_res_simps [simp]: "bind_res (Inr x) f = f x" "bind_res (Inl e) f = Inl e"
  by (simp_all add: bind_res_def)

lemma getitem_in: "i < length xs \<Longrightarrow> getitem xs i = Inr (xs ! i)"
  by (simp add: getitem_def)

lemma str_nat_digit: "n < 10 \<Longrightarrow> str_nat n = [48 + n]"
  by (simp add: str_nat.simps)

lemma set_indent_level_pos:
  "0 < d \<Longrightarrow> set_indent_level d child_tasks task_id level indents =
     (case child_tasks task_id of
        None \<Rightarrow> Inr (AList.update task_id (min level 4) indents)
      | Some children \<Rightarrow>
          set_indent_levels (d - 1) child_tasks children (level + 1)
            (AList.update task_id (min level 4) indents))"
  by (cases d) (auto simp: Let_def split: option.splits)

lemma validate_csv_row_never: "\<not> validate_csv_row rt r"
  by (simp add: validate_csv_row_def csv_writer_def has_write_method_def)

lemma create_note_row_never: "create_note_row rt content = None"
  by (simp add: create_note_row_def Let_def validate_csv_row_never)

lemma asc_kinds: "asc ''task'' \<noteq> asc ''note''" "asc ''TYPE'' \<noteq> asc ''note''"
  by (simp_all add: asc_def)

lemma create_todoist_task_kind:
  "create_todoist_task rt inc task indent = Inr r \<Longrightarrow> r = [] \<or> row_kind r = Some (asc ''task'')"
  by (auto simp: create_todoist_task_def bind_res_def Let_def row_kind_def
           split: sum.splits if_splits)

lemma convert_task_kinds:
  assumes "convert_task rt inc indents task = Inr rows"
  shows "list_all (\<lambda>r. row_kind r = Some (asc ''task'')) rows"
  using assms
  by (auto simp: convert_task_def bind_res_def Let_def create_note_row_never
           split: sum.splits option.splits if_splits dest: create_todoist_task_kind)

lemma map_res_all:
  "map_res f xs = Inr ys \<Longrightarrow> (\<And>x y. f x = Inr y \<Longrightarrow> P y) \<Longrightarrow> list_all P ys"
  by (induction xs arbitrary: ys) (auto split: sum.splits)

lemma convert_chunk_kinds:
  assumes "convert_chunk rt inc indents chunk = Inr rows"
  shows "list_all (\<lambda>r. row_kind r = Some (asc ''task'')) rows"
proof -
  obtain rowss where m: "map_res (convert_task rt inc indents) chunk = Inr rowss"
    and r: "rows = concat rowss"
    using assms by (auto simp: convert_chunk_def split: sum.splits)
  have "list_all (list_all (\<lambda>r. row_kind r = Some (asc ''task''))) rowss"
    using m by (rule map_res_all) (rule convert_task_kinds)
  then show ?thesis unfolding r by (induction rowss) auto
qed

lemma write_chunks_no_note:
  assumes "write_chunks rt inc indents n i chunks outs fs = (res, fs')"
    and "fs' name = Some rows"
  shows "fs name = Some rows \<or> no_note rows"
  using assms
proof (induction chunks arbitrary: i outs fs)
  case Nil
  then show ?case by simp
next
  case (Cons chunk chunks)
  show ?case
  proof (cases "convert_chunk rt inc indents chunk")
    case (Inl e)
    then show ?thesis using Cons.prems by simp
  next
    case (Inr todoist_tasks)
    let ?fs = "fs(output_name n i \<mapsto> TODOIST_HEADER # todoist_tasks)"
    have step: "write_chunks rt inc indents n (i + 1) chunks (outs @ [output_name n i]) ?fs = (res, fs')"
      using Cons.prems(1) Inr by simp
    have "?fs name = Some rows \<or> no_note rows"
      using step Cons.prems(2) by (rule Cons.IH)
    moreover have "no_note (TODOIST_HEADER # todoist_tasks)"
      using convert_chunk_kinds [OF Inr]
      by (auto simp: no_note_def TODOIST_HEADER_def row_kind_def asc_kinds list_all_iff)
    ultimately show ?thesis by (auto split: if_splits)
  qed
qed

subsection \<open>Concrete rows\<close>

lemma clean_text_buy_milk: "clean_text (asc ''Buy milk '') = asc ''Buy milk''"
  by (simp add: clean_text_def asc_def strip_def strip_by_def isspace_def replacements_def
      replace_def smart_apostrophes_key_def keep_char_def nordic_def split_ws_def)

lemma clean_text_2_litres: "clean_text (asc ''2 litres'') = asc ''2 litres''"
  by (simp add: clean_text_def asc_def strip_def strip_by_def isspace_def replacements_def
      replace_def smart_apostrophes_key_def keep_char_def nordic_def split_ws_def)

lemma clean_text_blank: "clean_text (asc '' '') = []"
  by (simp add: clean_text_def asc_def strip_def strip_by_def isspace_def replacements_def
      replace_def smart_apostrophes_key_def keep_char_def nordic_def split_ws_def)

lemma asc_nonempty: "asc ''Buy milk'' \<noteq> []" "asc ''2 litres'' \<noteq> []" "asc ''1'' \<noteq> []"
  by (simp_all add: asc_def)

lemma convert_task_buy_milk:
  "convert_task rt False [(asc ''1'', 1)]
     (sample_task (asc ''Buy milk '') (asc ''2 litres'') (asc ''5'') (asc ''1'') []) =
   Inr [[asc ''task'', asc ''Buy milk'', asc ''2 litres'', asc ''4'', asc ''1'', [], [], [],
         asc ''en'', asc ''UTC'', [], asc ''None'']]"
  by (simp add: convert_task_def sample_task_def getitem_def create_todoist_task_def
      clean_text_buy_milk clean_text_2_litres asc_nonempty task_labels_def task_priority_def
      create_note_row_never str_nat_digit) (simp add: asc_def)

lemma calculate_indents_one_root:
  "calculate_indents 100 [sample_task title content priority (asc ''1'') []] = Inr [(asc ''1'', 1)]"
  by (simp add: calculate_indents_def sample_task_def getitem_def set_indent_level_pos)

lemma sort_tasks_one:
  "sort_tasks [asc ''1''] [sample_task title content priority (asc ''1'') []] =
     Inr [sample_task title content priority (asc ''1'') []]"
  by (simp add: sort_tasks_def sort_key_of_def sample_task_def getitem_def)

lemma output_name_single: "output_name (Suc 0) i = asc ''todoist_import.csv''"
  by (simp add: output_name_def asc_def)

lemma convert_buy_milk:
  "convert rt (sample_run False [sample_task (asc ''Buy milk '') (asc ''2 litres'') (asc ''5'') (asc ''1'') []])
     Map.empty =
   (Inr [asc ''todoist_import.csv''],
    [asc ''todoist_import.csv'' \<mapsto>
       [TODOIST_HEADER,
        [asc ''task'', asc ''Buy milk'', asc ''2 litres'', asc ''4'', asc ''1'', [], [], [],
         asc ''en'', asc ''UTC'', [], asc ''None'']]])"
  by (simp add: convert_def sample_run_def read_ticktick_csv_def read_with_def
      calculate_indents_one_root sort_tasks_one split_tasks_into_chunks_def TASKS_PER_PROJECT_def
      convert_chunk_def convert_task_buy_milk [unfolded One_nat_def] output_name_single)

subsection \<open>Notes\<close>

text \<open>
  C3. \<open>validate_csv_row\<close> returns \<open>False\<close> for every row (the writer is built over a
  list, which raises, and the exception is caught), so \<open>create_note_row\<close> returns
  \<open>None\<close> for every string, and no run writes a row of kind \<open>note\<close>: every file of the
  output directory after a run is a file that was there before, unchanged, or holds no
  note row.
\<close>

theorem no_note_row_written:
  "\<not> validate_csv_row rt r \<and> create_note_row rt content = None \<and>
   (\<forall>name rows. snd (convert rt rn fs) name = Some rows \<longrightarrow> fs name = Some rows \<or> no_note rows)"
proof (intro conjI allI impI)
  show "\<not> validate_csv_row rt r" by (rule validate_csv_row_never)
  show "create_note_row rt content = None" by (rule create_note_row_never)
next
  fix name rows
  assume a: "snd (convert rt rn fs) name = Some rows"
  show "fs name = Some rows \<or> no_note rows"
  proof (cases "convert rt rn fs")
    case (Pair res fs')
    then have "fs' = fs \<or>
      (\<exists>indents n chunks. write_chunks rt (include_priority rn) indents n 0 chunks [] fs = (res, fs'))"
      by (auto simp: convert_def split: sum.splits option.splits prod.splits)
    then show ?thesis using a Pair write_chunks_no_note by fastforce
  qed
qed

theorem no_note_row_written_witness:
  "snd (convert sample_runtime
          (sample_run False [sample_task (asc ''Buy milk '') (asc ''2 litres'') (asc ''5'') (asc ''1'') []])
          Map.empty) (asc ''todoist_import.csv'') =
     Some [TODOIST_HEADER,
           [asc ''task'', asc ''Buy milk'', asc ''2 litres'', asc ''4'', asc ''1'', [], [], [],
            asc ''en'', asc ''UTC'', [], asc ''None'']] \<and>
   no_note [TODOIST_HEADER,
            [asc ''task'', asc ''Buy milk'', asc ''2 litres'', asc ''4'', asc ''1'', [], [], [],
             asc ''en'', asc ''UTC'', [], asc ''None'']]"
  using no_note_row_written [of sample_runtime "[]" "[]"
      "sample_run False [sample_task (asc ''Buy milk '') (asc ''2 litres'') (asc ''5'') (asc ''1'') []]"
      Map.empty]
  by (simp add: convert_buy_milk)

text \<open>
  C1, evaluated. The row has the description \<open>2 litres\<close>; the transformer emits its
  task row and nothing after it, under the sample tables with priority mapping on.
\<close>

theorem description_without_note:
  "convert_task sample_runtime True [(asc ''1'', 1)]
     (sample_task (asc ''Buy milk '') (asc ''2 litres'') (asc ''5'') (asc ''1'') []) =
   Inr [[asc ''task'', asc ''Buy milk'', asc ''2 litres'', asc ''3'', asc ''1'', [], [], [],
         asc ''en'', asc ''UTC'', [], asc ''None'']]"
proof -
  have "decimal_int (asc ''5'') = Some 5"
    by (simp add: decimal_int_def asc_def)
  then show ?thesis
    by (simp add: convert_task_def sample_task_def getitem_def create_todoist_task_def
        clean_text_buy_milk clean_text_2_litres asc_nonempty task_labels_def task_priority_def
        create_note_row_never str_nat_digit sample_runtime_def PRIORITY_MAP_def dict_get_def)
       (simp add: asc_def)
qed

subsection \<open>Priority\<close>

lemma dict_get_priority: "str_nat (dict_get PRIORITY_MAP code 4) = priority_table code"
  by (simp add: dict_get_def PRIORITY_MAP_def priority_table_def str_nat_digit asc_def)

text \<open>
  C4. For a row of 24 fields whose title is not empty after cleaning: with priority
  mapping on, a task row is emitted whenever the priority field reads as an integer,
  and its priority is the fixed table at that code (0 to 4, 5 to 3, 3 to 2, 1 to 1,
  anything else to 4); where the field does not read as an integer \<open>int\<close> raises and
  no row is emitted. With priority mapping off the priority is 4 whatever the field
  holds.
\<close>

theorem task_priority_table:
  assumes "length task = 24" and "clean_text (task ! 2) \<noteq> []"
  shows "(int_parse rt (task ! 11) = Some code \<longrightarrow>
            (\<exists>r. create_todoist_task rt True task indent = Inr r \<and>
                 row_kind r = Some (asc ''task'') \<and> r ! 3 = priority_table code)) \<and>
         (int_parse rt (task ! 11) = None \<longrightarrow>
            create_todoist_task rt True task indent = Inl (InvalidLiteral (task ! 11))) \<and>
         (\<exists>r. create_todoist_task rt False task indent = Inr r \<and>
              row_kind r = Some (asc ''task'') \<and> r ! 3 = asc ''4'')"
  using assms
  by (simp add: create_todoist_task_def getitem_in Let_def task_priority_def row_kind_def
      dict_get_priority)

theorem task_priority_table_witness:
  "map_sum id (\<lambda>r. r ! 3)
     (create_todoist_task sample_runtime True
        (sample_task (asc ''Buy milk '') (asc ''2 litres'') (asc ''5'') (asc ''1'') []) 1) =
     Inr (asc ''3'') \<and>
   map_sum id (\<lambda>r. r ! 3)
     (create_todoist_task sample_runtime False
        (sample_task (asc ''Buy milk '') (asc ''2 litres'') (asc ''5'') (asc ''1'') []) 1) =
     Inr (asc ''4'')"
proof -
  let ?t = "sample_task (asc ''Buy milk '') (asc ''2 litres'') (asc ''5'') (asc ''1'') []"
  have len: "length ?t = 24" by (simp add: sample_task_def)
  have title: "clean_text (?t ! 2) \<noteq> []"
    by (simp add: sample_task_def clean_text_buy_milk asc_nonempty)
  have code: "int_parse sample_runtime (?t ! 11) = Some 5"
    by (simp add: sample_task_def sample_runtime_def decimal_int_def asc_def)
  have table: "priority_table 5 = asc ''3''"
    by (simp add: priority_table_def)
  show ?thesis
    using task_priority_table [OF len title, of sample_runtime 5 1] code table by auto
qed

subsection \<open>Rows without a title\<close>

text \<open>
  C5. A row of 24 fields whose title is empty after cleaning, and whose identifier the
  index holds, adds no row to the output: neither a task nor a note.
\<close>

theorem empty_title_discarded:
  assumes "length task = 24" and "clean_text (task ! 2) = []"
    and "map_of indents (task ! 22) = Some indent"
  shows "convert_task rt inc indents task = Inr []"
  using assms
  by (simp add: convert_task_def create_todoist_task_def getitem_in Let_def
      create_note_row_never)

theorem empty_title_discarded_witness:
  "convert_task sample_runtime True [(asc ''1'', 1)]
     (sample_task (asc '' '') (asc ''2 litres'') (asc ''5'') (asc ''1'') []) = Inr []"
proof -
  let ?t = "sample_task (asc '' '') (asc ''2 litres'') (asc ''5'') (asc ''1'') []"
  have "length ?t = 24" by (simp add: sample_task_def)
  moreover have "clean_text (?t ! 2) = []"
    by (simp add: sample_task_def clean_text_blank)
  moreover have "map_of [(asc ''1'', 1)] (?t ! 22) = Some (1::nat)"
    by (simp add: sample_task_def)
  ultimately show ?thesis by (rule empty_title_discarded)
qed

section \<open>The hierarchy resolver on records without a known parent\<close>

lemma calculate_indents_orphan:
  "calculate_indents 100
     [sample_task (asc ''Buy milk '') [] (asc ''0'') (asc ''1'') [],
      sample_task (asc ''Buy milk '') [] (asc ''0'') (asc ''2'') (asc ''9'')] =
   Inr [(asc ''1'', 1)]"
  by (simp add: calculate_indents_def sample_task_def getitem_def set_indent_level_pos asc_def)

text \<open>
  C2, evaluated. Two records: a root with identifier 1, and a record with identifier
  2 whose parent identifier 9 is no record's identifier. The index holds the root
  only, and the run ends in the \<open>ValueError\<close> of \<open>task_ids.index\<close> before any file is
  written.
\<close>

theorem orphan_aborts_run:
  "calculate_indents 100
     [sample_task (asc ''Buy milk '') [] (asc ''0'') (asc ''1'') [],
      sample_task (asc ''Buy milk '') [] (asc ''0'') (asc ''2'') (asc ''9'')] =
     Inr [(asc ''1'', 1)] \<and>
   convert rt
     (sample_run True
        [sample_task (asc ''Buy milk '') [] (asc ''0'') (asc ''1'') [],
         sample_task (asc ''Buy milk '') [] (asc ''0'') (asc ''2'') (asc ''9'')])
     fs =
     (Inl (NotInList (asc ''2'')), fs)"
proof -
  let ?tasks = "[sample_task (asc ''Buy milk '') [] (asc ''0'') (asc ''1'') [],
      sample_task (asc ''Buy milk '') [] (asc ''0'') (asc ''2'') (asc ''9'')]"
  have "sort_tasks [asc ''1''] ?tasks = Inl (NotInList (asc ''2''))"
    by (simp add: sort_tasks_def sort_key_of_def sample_task_def getitem_def asc_def)
  then show ?thesis
    by (simp add: calculate_indents_orphan convert_def sample_run_def read_ticktick_csv_def
        read_with_def)
qed

text \<open>
  C8, evaluated. Two records, without a cycle: one with identifier 2 whose parent 9 is
  unknown, and one with identifier 3 whose parent is the record 2. The index is empty:
  the record 3 has a parent in the set and no indent level.
\<close>

theorem child_of_orphan_unassigned:
  "calculate_indents 100
     [sample_task (asc ''Buy milk '') [] (asc ''0'') (asc ''2'') (asc ''9''),
      sample_task (asc ''Buy milk '') [] (asc ''0'') (asc ''3'') (asc ''2'')] =
   Inr []"
  by (simp add: calculate_indents_def sample_task_def getitem_def asc_def)

section \<open>Reading a file with another header\<close>

text \<open>
  C7. When the output directory is there or can be made, and the header row read
  differs from the TickTick header, the run ends in a \<open>ValueError\<close> that carries the
  header message, and the files are as they were. Under UTF-8 the message stands alone.
  When the UTF-8 attempt ended in a decode error and the header row read under Latin-1
  differs, the second \<open>except\<close> wraps it: the message is the encoding message followed
  by the header message.
\<close>

theorem header_mismatch_aborts:
  assumes "mkdir_error rn = None" and "header \<noteq> TICKTICK_HEADER"
  shows "(utf8_attempt rn = Header header rest \<longrightarrow>
            convert rt rn fs = (Inl (ValueError header_message), fs)) \<and>
         (read_with (utf8_attempt rn) = Inl (Inl DecodeFailure) \<and>
          latin1_attempt rn = Header header rest \<longrightarrow>
            convert rt rn fs = (Inl (ValueError (encoding_message @ header_message)), fs))"
  using assms
  by (simp add: convert_def read_ticktick_csv_def read_with_def str_raised_def)

theorem header_mismatch_aborts_witness:
  "convert sample_runtime
     \<lparr>include_priority = True, depth = 100, mkdir_error = None,
      utf8_attempt = Header [asc ''Title''] (Inr []), latin1_attempt = Failed EndOfFile\<rparr>
     Map.empty =
     (Inl (ValueError header_message), Map.empty) \<and>
   convert sample_runtime
     \<lparr>include_priority = True, depth = 100, mkdir_error = None,
      utf8_attempt = Failed DecodeFailure, latin1_attempt = Header [asc ''Title''] (Inr [])\<rparr>
     Map.empty =
     (Inl (ValueError (encoding_message @ header_message)), Map.empty)"
proof -
  have h: "[asc ''Title''] \<noteq> TICKTICK_HEADER"
    by (simp add: TICKTICK_HEADER_def)
  let ?a = "\<lparr>include_priority = True, depth = 100, mkdir_error = None,
      utf8_attempt = Header [asc ''Title''] (Inr []), latin1_attempt = Failed EndOfFile\<rparr>"
  let ?b = "\<lparr>include_priority = True, depth = 100, mkdir_error = None,
      utf8_attempt = Failed DecodeFailure, latin1_attempt = Header [asc ''Title''] (Inr [])\<rparr>"
  have "mkdir_error ?a = None" "mkdir_error ?b = None" by simp_all
  then show ?thesis
    using header_mismatch_aborts [OF _ h, of ?a "Inr []" sample_runtime Map.empty]
      header_mismatch_aborts [OF _ h, of ?b "Inr []" sample_runtime Map.empty]
    by (simp add: read_with_def)
qed

section \<open>Properties of the chunker\<close>

lemma map_res_total:
  "(\<And>x. x \<in> set xs \<Longrightarrow> f x = Inr (g x)) \<Longrightarrow> map_res f xs = Inr (map g xs)"
  by (induction xs) auto

lemma process_task_tag:
  "1 < k \<Longrightarrow> 4 < length t \<Longrightarrow> process_task i k t = Inr (add_part_tag i k t)"
  by (simp add: process_task_def add_part_tag_def getitem_in)

lemma process_chunk_tag:
  assumes "1 < k" and "\<And>t. t \<in> set ts \<Longrightarrow> 4 < length t"
  shows "process_chunk ts i k = Inr (map (add_part_tag i k) ts)"
  unfolding process_chunk_def
proof (rule map_res_total)
  fix t
  assume "t \<in> set ts"
  then have "4 < length t" by (rule assms(2))
  with assms(1) show "process_task i k t = Inr (add_part_tag i k t)"
    by (rule process_task_tag)
qed

lemma slice_take: "take (min ((i + 1) * 300) (length xs) - i * 300) (drop (i * 300) xs) =
    take 300 (drop (300 * i) xs)"
proof (cases "(i + 1) * 300 \<le> length xs")
  case True
  then show ?thesis by (simp add: min_def mult.commute)
next
  case False
  then have "length (drop (i * 300) xs) \<le> 300" by simp
  moreover have "min ((i + 1) * 300) (length xs) - i * 300 = length (drop (i * 300) xs)"
    using False by (simp add: min_def)
  ultimately show ?thesis by (simp add: mult.commute)
qed

lemma concat_slices: "concat (map (\<lambda>i. take m (drop (m * i) xs)) [0 ..< k]) = take (m * k) xs"
proof (induction k)
  case 0
  then show ?case by simp
next
  case (Suc k)
  have "take (m * k) xs @ take m (drop (m * k) xs) = take (m * k + m) xs"
    by (simp add: take_add)
  with Suc show ?case by (simp add: add.commute)
qed

lemma untag_add_part_tag: "(add_part_tag i k t)[4 := []] = t[4 := []]"
  by (simp add: add_part_tag_def)

lemma spec_chunks_length: "length (spec_chunks tasks) = (length tasks + 299) div 300"
  by (simp add: spec_chunks_def)

lemma spec_chunks_nth:
  "i < (length tasks + 299) div 300 \<Longrightarrow>
     length (spec_chunks tasks ! i) = min 300 (length tasks - 300 * i)"
  by (simp add: spec_chunks_def min.commute)

lemma spec_chunks_untagged:
  "map (\<lambda>t. t[4 := []]) (concat (spec_chunks tasks)) = map (\<lambda>t. t[4 := []]) tasks"
proof -
  let ?k = "(length tasks + 299) div 300"
  have "map (\<lambda>t. t[4 := []]) (concat (spec_chunks tasks)) =
        concat (map (\<lambda>i. map (\<lambda>t. t[4 := []]) (take 300 (drop (300 * i) tasks))) [0 ..< ?k])"
    by (simp add: spec_chunks_def map_concat comp_def untag_add_part_tag)
  also have "\<dots> = map (\<lambda>t. t[4 := []]) (concat (map (\<lambda>i. take 300 (drop (300 * i) tasks)) [0 ..< ?k]))"
    by (simp add: map_concat comp_def)
  also have "\<dots> = map (\<lambda>t. t[4 := []]) (take (300 * ?k) tasks)"
    by (simp only: concat_slices)
  also have "take (300 * ?k) tasks = tasks"
    by (rule take_all) arith
  finally show ?thesis .
qed

lemma split_is_spec:
  assumes "300 < length tasks" and "\<And>t. t \<in> set tasks \<Longrightarrow> 4 < length t"
  shows "split_tasks_into_chunks tasks = Inr (spec_chunks tasks)"
proof -
  let ?k = "(length tasks + 299) div 300"
  have k: "1 < ?k" using assms(1) by arith
  have nk: "num_chunks (length tasks) = ?k"
    by (simp add: num_chunks_def TASKS_PER_PROJECT_def)
  have "map_res
          (\<lambda>i. process_chunk (take (min ((i + 1) * 300) (length tasks) - i * 300) (drop (i * 300) tasks))
                 (i + 1) ?k) [0 ..< ?k] =
        Inr (map (\<lambda>i. map (add_part_tag (i + 1) ?k) (take 300 (drop (300 * i) tasks))) [0 ..< ?k])"
  proof (rule map_res_total)
    fix i
    have "\<And>t. t \<in> set (take 300 (drop (300 * i) tasks)) \<Longrightarrow> 4 < length t"
      using assms(2) by (meson in_set_dropD in_set_takeD)
    then show "process_chunk (take (min ((i + 1) * 300) (length tasks) - i * 300) (drop (i * 300) tasks))
                 (i + 1) ?k = Inr (map (add_part_tag (i + 1) ?k) (take 300 (drop (300 * i) tasks)))"
      unfolding slice_take using k by (rule process_chunk_tag [rotated])
  qed
  then show ?thesis
    using assms(1) by (simp add: split_tasks_into_chunks_def TASKS_PER_PROJECT_def nk Let_def spec_chunks_def)
qed

text \<open>
  C6. A list of at most 300 records is returned as one chunk, unchanged. A list of
  more than 300 records, each with a tag field, is split into \<open>ceil(n / 300)\<close>
  chunks, the consecutive slices of 300 records with the part tag added to every
  record: every chunk but the last has exactly 300 records, the last has between 1
  and 300, and the records of the chunks, in order and leaving the tag field aside, are
  the records of the input.
\<close>

theorem chunks_as_specified:
  "(length tasks \<le> 300 \<longrightarrow> split_tasks_into_chunks tasks = Inr [tasks]) \<and>
   (300 < length tasks \<and> (\<forall>t \<in> set tasks. 4 < length t) \<longrightarrow>
      split_tasks_into_chunks tasks = Inr (spec_chunks tasks) \<and>
      length (spec_chunks tasks) = (length tasks + 299) div 300 \<and>
      (\<forall>i < length (spec_chunks tasks).
         length (spec_chunks tasks ! i) =
           (if Suc i < length (spec_chunks tasks) then 300 else length tasks - 300 * i) \<and>
         0 < length (spec_chunks tasks ! i) \<and> length (spec_chunks tasks ! i) \<le> 300) \<and>
      map (\<lambda>t. t[4 := []]) (concat (spec_chunks tasks)) = map (\<lambda>t. t[4 := []]) tasks)"
proof (intro conjI impI allI)
  assume "length tasks \<le> 300"
  then show "split_tasks_into_chunks tasks = Inr [tasks]"
    by (simp add: split_tasks_into_chunks_def TASKS_PER_PROJECT_def)
next
  assume a: "300 < length tasks \<and> (\<forall>t \<in> set tasks. 4 < length t)"
  then show "split_tasks_into_chunks tasks = Inr (spec_chunks tasks)"
    by (intro split_is_spec) auto
next
  show "length (spec_chunks tasks) = (length tasks + 299) div 300"
    by (rule spec_chunks_length)
next
  show "map (\<lambda>t. t[4 := []]) (concat (spec_chunks tasks)) = map (\<lambda>t. t[4 := []]) tasks"
    by (rule spec_chunks_untagged)
next
  fix i
  assume i: "i < length (spec_chunks tasks)"
  then have i': "i < (length tasks + 299) div 300" by (simp add: spec_chunks_length)
  have len: "length (spec_chunks tasks ! i) = min 300 (length tasks - 300 * i)"
    using i' by (rule spec_chunks_nth)
  show "length (spec_chunks tasks ! i) =
           (if Suc i < length (spec_chunks tasks) then 300 else length tasks - 300 * i)"
    unfolding len spec_chunks_length using i' by (auto simp: min_def)
  show "0 < length (spec_chunks tasks ! i)"
    unfolding len using i' by (auto simp: min_def)
  show "length (spec_chunks tasks ! i) \<le> 300"
    unfolding len by simp
qed

theorem chunks_as_specified_witness:
  "split_tasks_into_chunks [sample_task (asc ''a'') [] (asc ''0'') (asc ''1'') []] =
     Inr [[sample_task (asc ''a'') [] (asc ''0'') (asc ''1'') []]] \<and>
   split_tasks_into_chunks (replicate 301 (sample_task (asc ''a'') [] (asc ''0'') (asc ''1'') [])) =
     Inr (spec_chunks (replicate 301 (sample_task (asc ''a'') [] (asc ''0'') (asc ''1'') []))) \<and>
   length (spec_chunks (replicate 301 (sample_task (asc ''a'') [] (asc ''0'') (asc ''1'') []))) = 2 \<and>
   spec_chunks (replicate 301 (sample_task (asc ''a'') [] (asc ''0'') (asc ''1'') [])) ! 1 =
     [(sample_task (asc ''a'') [] (asc ''0'') (asc ''1'') [])[4 := asc ''part_2_of_2'']]"
proof -
  let ?t = "sample_task (asc ''a'') [] (asc ''0'') (asc ''1'') []"
  have small: "length [?t] \<le> 300" by simp
  have big: "300 < length (replicate 301 ?t) \<and> (\<forall>t \<in> set (replicate 301 ?t). 4 < length t)"
    by (simp add: sample_task_def)
  have tag: "add_part_tag 2 2 ?t = ?t[4 := asc ''part_2_of_2'']"
    by (simp add: add_part_tag_def part_tag_def str_nat_digit sample_task_def asc_def)
  have last: "spec_chunks (replicate 301 ?t) ! 1 = [add_part_tag 2 2 ?t]"
    by (simp add: spec_chunks_def numeral_2_eq_2)
  show ?thesis
    using chunks_as_specified [of "[?t]"] chunks_as_specified [of "replicate 301 ?t"] small big last tag
    by simp
qed


section \<open>Properties of the label synthesizer\<close>

lemma replace_char: "replace [a] [b] s = map (\<lambda>c. if c = a then b else c) s"
  by (induction s) (auto simp: replace_def)

lemma replace_char_absent: "a \<notin> set s \<Longrightarrow> replace [a] [b] s = s"
  unfolding replace_char by (induction s) auto

lemma replace_from_set: "set (replace_from old new k s) \<subseteq> set s \<union> set new"
  by (induction old new k s rule: replace_from.induct) auto

lemma collapse_id: "\<not> sublist [95, 95] s \<Longrightarrow> collapse_underscores s = s"
  by (subst collapse_underscores.simps) simp

lemma collapse_step:
  "sublist [95, 95] s \<Longrightarrow> collapse_underscores s = collapse_underscores (replace [95, 95] [95] s)"
  by (subst collapse_underscores.simps) simp

lemma collapse_no_double: "\<not> sublist [95, 95] (collapse_underscores s)"
proof (induction s rule: collapse_underscores.induct)
  case (1 s)
  show ?case
  proof (cases "sublist [95, 95] s")
    case True
    then show ?thesis using 1 by (simp add: collapse_step)
  next
    case False
    then show ?thesis by (simp add: collapse_id)
  qed
qed

lemma collapse_set: "set (collapse_underscores s) \<subseteq> set s"
proof (induction s rule: collapse_underscores.induct)
  case (1 s)
  show ?case
  proof (cases "sublist [95, 95] s")
    case True
    then have "set [95, 95] \<subseteq> set s" by (rule set_mono_sublist)
    then have "95 \<in> set s" by simp
    then have "set (replace [95, 95] [95] s) \<subseteq> set s"
      using replace_from_set [of "[95, 95]" "[95]" 0 s] by (auto simp: replace_def)
    moreover have "set (collapse_underscores (replace [95, 95] [95] s)) \<subseteq> set (replace [95, 95] [95] s)"
      using True by (rule 1)
    ultimately show ?thesis
      using True by (simp add: collapse_step)
  next
    case False
    then show ?thesis by (simp add: collapse_id)
  qed
qed

lemma strip_by_sublist: "sublist (strip_by p s) s"
proof -
  let ?t = "dropWhile p s"
  have "suffix (dropWhile p (rev ?t)) (rev ?t)" by (rule suffix_dropWhile)
  then have "prefix (strip_by p s) ?t"
    by (simp add: suffix_to_prefix strip_by_def)
  then have "sublist (strip_by p s) ?t" by (rule prefix_imp_sublist)
  moreover have "sublist ?t s" by (rule sublist_dropWhile)
  ultimately show ?thesis by (rule sublist_order.order.trans)
qed

lemma last_dropWhile:
  assumes "dropWhile p xs \<noteq> []"
  shows "last (dropWhile p xs) = last xs"
proof -
  have "last (takeWhile p xs @ dropWhile p xs) = last (dropWhile p xs)"
    using assms by (rule last_appendR)
  then show ?thesis by simp
qed

lemma strip_by_ends:
  assumes "strip_by p s \<noteq> []"
  shows "\<not> p (hd (strip_by p s)) \<and> \<not> p (last (strip_by p s))"
proof -
  let ?t = "dropWhile p s"
  let ?u = "dropWhile p (rev ?t)"
  have u: "?u \<noteq> []" using assms by (simp add: strip_by_def)
  have "?t = [] \<Longrightarrow> ?u = []" by (auto dest: set_dropWhileD)
  with u have t: "?t \<noteq> []" by blast
  have "\<not> p (hd ?u)" using u by (rule hd_dropWhile)
  moreover have "last ?u = last (rev ?t)" using u by (rule last_dropWhile)
  moreover have "\<not> p (hd ?t)" using t by (rule hd_dropWhile)
  ultimately show ?thesis
    using u t by (simp add: strip_by_def last_rev hd_rev)
qed

lemma no_double_map:
  fixes y :: pystr and g :: "nat \<Rightarrow> nat"
  assumes "\<not> sublist [95, 95] y" and "\<And>c. c \<in> set y \<Longrightarrow> g c = 95 \<Longrightarrow> c = 95"
  shows "\<not> sublist [95, 95] (map g y)"
proof
  assume "sublist [95, 95] (map g y)"
  then have "\<exists>xs. sublist xs y \<and> [95, 95] = map g xs"
    by (rule sublist_map_rightE)
  then show False
  proof (elim exE conjE)
    fix xs
    assume xs: "sublist xs y" "[95, 95] = map g xs"
    from xs(2) have "length [95::nat, 95] = length (map g xs)" by (rule arg_cong)
    then have "length xs = Suc (Suc 0)" by simp
    then obtain a b where xs_ab: "xs = [a, b]"
      by (auto simp: length_Suc_conv)
    have ab: "g a = 95" "g b = 95"
      using xs(2) unfolding xs_ab by simp_all
    have "set xs \<subseteq> set y" using xs(1) by (rule set_mono_sublist)
    then have "a \<in> set y" "b \<in> set y"
      unfolding xs_ab by simp_all
    then have "a = 95" "b = 95" using ab assms(2) by blast+
    then have "xs = [95, 95]" unfolding xs_ab by simp
    with xs(1) assms(1) show False by simp
  qed
qed

lemma label_core:
  assumes "name \<noteq> []"
  shows "clean_label_name rt name =
    str_lower rt (strip_by (\<lambda>c. c = 95) (collapse_underscores
      (filter (label_char rt) (replace [45] [95] (replace [32] [95] name)))))"
  using assms by (simp add: clean_label_name_def Let_def)

lemma label_fixed:
  assumes out: "list_all (label_char rt) out" "32 \<notin> set out" "45 \<notin> set out"
    and nd: "\<not> sublist [95, 95] out"
    and ends: "out \<noteq> [] \<Longrightarrow> hd out \<noteq> 95 \<and> last out \<noteq> 95"
    and low: "str_lower rt out = out"
  shows "clean_label_name rt out = out"
proof (cases "out = []")
  case True
  then show ?thesis by (simp add: clean_label_name_def)
next
  case False
  have r: "replace [45] [95] (replace [32] [95] out) = out"
    using out(2,3) by (simp add: replace_char_absent)
  have f: "filter (label_char rt) out = out"
    using out(1) by (simp add: list_all_iff filter_id_conv)
  have c: "collapse_underscores out = out"
    using nd by (rule collapse_id)
  have "hd out \<noteq> 95" "last out \<noteq> 95"
    using False ends by simp_all
  with False have s: "strip_by (\<lambda>c. c = 95) out = out"
    by (intro strip_by_id)
  show ?thesis
    using False by (simp add: label_core r f c s low)
qed

text \<open>
  C10, amended. On every set of code points on which lower-casing is simple (ASCII and
  Latin-1 are such a set, with the map \<open>latin1_lower\<close>), and for every string \<open>x\<close>
  over it, \<open>clean_label_name\<close> is idempotent at \<open>x\<close>, and every character of its
  result is an underscore or a character the filter keeps (alphanumeric or one of the
  six allow-list letters) that lower-casing leaves unchanged.
\<close>

theorem label_idempotent_simple:
  fixes g :: "nat \<Rightarrow> nat"
  assumes simple: "lowers_simply rt S g" and x: "set x \<subseteq> S" and u: "95 \<in> S"
  shows "clean_label_name rt (clean_label_name rt x) = clean_label_name rt x \<and>
         (\<forall>c \<in> set (clean_label_name rt x). c = 95 \<or> (label_char rt c \<and> g c = c))"
proof (cases "x = []")
  case True
  then show ?thesis by (simp add: clean_label_name_def)
next
  case False
  let ?c1 = "replace [45] [95] (replace [32] [95] x)"
  let ?c2 = "filter (label_char rt) ?c1"
  let ?c3 = "collapse_underscores ?c2"
  let ?y = "strip_by (\<lambda>c. c = 95) ?c3"
  let ?out = "map g ?y"
  have per_char: "\<And>s. set s \<subseteq> S \<Longrightarrow> str_lower rt s = map g s"
    using simple by (simp add: lowers_simply_def)
  have g_ok: "\<And>c. c \<in> S \<Longrightarrow> label_char rt c \<Longrightarrow>
      g c \<in> S \<and> label_char rt (g c) \<and> g (g c) = g c \<and> g c \<noteq> 32 \<and> g c \<noteq> 45 \<and> (g c = 95 \<longleftrightarrow> c = 95)"
    using simple unfolding lowers_simply_def by blast
  have c1: "set ?c1 \<subseteq> S"
    using x u by (auto simp: replace_char)
  have c2: "set ?c2 \<subseteq> S" "list_all (label_char rt) ?c2"
    using c1 by (auto simp: list_all_iff)
  have c3_sub: "set ?c3 \<subseteq> set ?c2" by (rule collapse_set)
  have "sublist ?y ?c3" by (rule strip_by_sublist)
  then have y_sub: "set ?y \<subseteq> set ?c3" by (rule set_mono_sublist)
  have yS: "set ?y \<subseteq> S"
    using y_sub c3_sub c2(1) by (rule_tac subset_trans [OF _ subset_trans])
  have yL: "label_char rt c" if "c \<in> set ?y" for c
  proof -
    have "c \<in> set ?c2" using that y_sub c3_sub by (meson subsetD)
    then show ?thesis by simp
  qed
  have y_nd: "\<not> sublist [95, 95] ?y"
  proof
    assume "sublist [95, 95] ?y"
    moreover have "sublist ?y ?c3" by (rule strip_by_sublist)
    ultimately have "sublist [95, 95] ?c3" by (rule sublist_order.order.trans)
    moreover have "\<not> sublist [95, 95] ?c3" by (rule collapse_no_double)
    ultimately show False by (rule notE [rotated])
  qed
  have gy: "g c \<in> S \<and> label_char rt (g c) \<and> g (g c) = g c \<and> g c \<noteq> 32 \<and> g c \<noteq> 45 \<and> (g c = 95 \<longleftrightarrow> c = 95)"
    if "c \<in> set ?y" for c
  proof -
    have "c \<in> S" using that yS by (rule subsetD [rotated])
    then show ?thesis using yL [OF that] by (rule g_ok)
  qed
  have res: "clean_label_name rt x = ?out"
    using False per_char [OF yS] by (simp add: label_core)
  have out_S: "set ?out \<subseteq> S" using gy by (simp add: image_subset_iff)
  have out_label: "list_all (label_char rt) ?out" using gy by (simp add: list_all_iff)
  have out_sep: "32 \<notin> set ?out" "45 \<notin> set ?out" using gy by (simp_all add: image_iff)
  have out_nd: "\<not> sublist [95, 95] ?out"
    using y_nd
  proof (rule no_double_map)
    fix c assume "c \<in> set ?y" "g c = 95"
    then show "c = 95" using gy by simp
  qed
  have out_ends: "hd ?out \<noteq> 95 \<and> last ?out \<noteq> 95" if "?out \<noteq> []"
  proof -
    have ne: "?y \<noteq> []" using that by simp
    then have e: "hd ?y \<noteq> 95 \<and> last ?y \<noteq> 95"
      using strip_by_ends [of "\<lambda>c. c = 95" ?c3] by simp
    have "hd ?y \<in> set ?y" "last ?y \<in> set ?y" using ne by simp_all
    then have "g (hd ?y) \<noteq> 95 \<and> g (last ?y) \<noteq> 95"
      using e gy by simp
    then show ?thesis using ne by (simp add: hd_map last_map)
  qed
  have "map g ?out = ?out" using gy by simp
  then have out_low: "str_lower rt ?out = ?out"
    using per_char [OF out_S] by simp
  have idem: "clean_label_name rt ?out = ?out"
    using out_label out_sep out_nd out_ends out_low by (rule label_fixed)
  have chars: "\<forall>c \<in> set ?out. c = 95 \<or> (label_char rt c \<and> g c = c)"
    using gy by simp
  show ?thesis
    unfolding res using idem chars by (rule conjI)
qed

lemma sample_lower_latin1: "set s \<subseteq> {c. c < 256} \<Longrightarrow> sample_lower s = map latin1_lower s"
  by (induction s) (auto simp: sample_lower_def)

lemma nordic_alnum:
  assumes "c \<in> set nordic"
  shows "latin1_isalnum c"
proof -
  have "c = 230 \<or> c = 248 \<or> c = 229 \<or> c = 198 \<or> c = 216 \<or> c = 197"
    using assms by (simp add: nordic_def)
  then show ?thesis
    by (elim disjE) (simp_all add: latin1_isalnum_def)
qed

lemma sample_label_char:
  "c < 256 \<Longrightarrow> label_char sample_runtime c \<longleftrightarrow> latin1_isalnum c \<or> c = 95"
  using nordic_alnum [of c]
  by (auto simp: label_char_def sample_runtime_def sample_isalnum_def)

lemma latin1_lower_cases:
  "(65 \<le> c \<and> c \<le> 90) \<or> (192 \<le> c \<and> c \<le> 214) \<or> (216 \<le> c \<and> c \<le> 222) \<Longrightarrow>
     latin1_lower c = c + 32"
  "\<not> ((65 \<le> c \<and> c \<le> 90) \<or> (192 \<le> c \<and> c \<le> 214) \<or> (216 \<le> c \<and> c \<le> 222)) \<Longrightarrow>
     latin1_lower c = c"
  by (simp_all add: latin1_lower_def)

lemma latin1_isalnum_lower_ranges:
  "97 \<le> c \<Longrightarrow> c \<le> 122 \<Longrightarrow> latin1_isalnum c"
  "224 \<le> c \<Longrightarrow> c \<le> 246 \<Longrightarrow> latin1_isalnum c"
  "248 \<le> c \<Longrightarrow> c \<le> 255 \<Longrightarrow> latin1_isalnum c"
  by (simp_all add: latin1_isalnum_def)

lemma latin1_isalnum_ge: "latin1_isalnum c \<Longrightarrow> 48 \<le> c"
  by (auto simp: latin1_isalnum_def)

lemma latin1_lower_upper:
  assumes "(65 \<le> c \<and> c \<le> 90) \<or> (192 \<le> c \<and> c \<le> 214) \<or> (216 \<le> c \<and> c \<le> 222)"
  shows "latin1_lower c = c + 32 \<and> latin1_isalnum (c + 32) \<and> latin1_lower (c + 32) = c + 32"
  using assms
proof (elim disjE conjE)
  assume "65 \<le> c" "c \<le> 90"
  then show ?thesis
    by (simp add: latin1_lower_def latin1_isalnum_lower_ranges(1))
next
  assume "192 \<le> c" "c \<le> 214"
  then show ?thesis
    by (simp add: latin1_lower_def latin1_isalnum_lower_ranges(2))
next
  assume "216 \<le> c" "c \<le> 222"
  then show ?thesis
    by (simp add: latin1_lower_def latin1_isalnum_lower_ranges(3))
qed

lemma latin1_lower_props:
  assumes "c < 256" and "latin1_isalnum c \<or> c = 95"
  shows "latin1_lower c < 256 \<and> (latin1_isalnum (latin1_lower c) \<or> latin1_lower c = 95) \<and>
         latin1_lower (latin1_lower c) = latin1_lower c \<and> latin1_lower c \<noteq> 32 \<and>
         latin1_lower c \<noteq> 45 \<and> (latin1_lower c = 95 \<longleftrightarrow> c = 95)"
proof (cases "(65 \<le> c \<and> c \<le> 90) \<or> (192 \<le> c \<and> c \<le> 214) \<or> (216 \<le> c \<and> c \<le> 222)")
  case True
  then have l: "latin1_lower c = c + 32 \<and> latin1_isalnum (c + 32) \<and> latin1_lower (c + 32) = c + 32"
    by (rule latin1_lower_upper)
  have "65 \<le> c \<and> c \<le> 222 \<and> c \<noteq> 95" using True by arith
  then show ?thesis using l by simp
next
  case False
  then have l: "latin1_lower c = c" by (rule latin1_lower_cases)
  have "48 \<le> c" using assms(2) latin1_isalnum_ge [of c] by auto
  then show ?thesis unfolding l using assms by simp
qed

lemma sample_lowers_simply: "lowers_simply sample_runtime {c. c < 256} latin1_lower"
proof -
  have a: "\<forall>s. set s \<subseteq> {c. c < 256} \<longrightarrow> str_lower sample_runtime s = map latin1_lower s"
    using sample_lower_latin1 by (simp add: sample_runtime_def)
  have b: "latin1_lower c \<in> {c. c < 256} \<and> label_char sample_runtime (latin1_lower c) \<and>
        latin1_lower (latin1_lower c) = latin1_lower c \<and> latin1_lower c \<noteq> 32 \<and>
        latin1_lower c \<noteq> 45 \<and> (latin1_lower c = 95 \<longleftrightarrow> c = 95)"
    if "c \<in> {c. c < 256}" "label_char sample_runtime c" for c
  proof -
    have c: "c < 256" using that(1) by simp
    then have "latin1_isalnum c \<or> c = 95" using that(2) by (simp add: sample_label_char)
    with c have p: "latin1_lower c < 256 \<and> (latin1_isalnum (latin1_lower c) \<or> latin1_lower c = 95) \<and>
         latin1_lower (latin1_lower c) = latin1_lower c \<and> latin1_lower c \<noteq> 32 \<and>
         latin1_lower c \<noteq> 45 \<and> (latin1_lower c = 95 \<longleftrightarrow> c = 95)"
      by (rule latin1_lower_props)
    then have "label_char sample_runtime (latin1_lower c)"
      using sample_label_char [of "latin1_lower c"] by blast
    with p show ?thesis by simp
  qed
  show ?thesis unfolding lowers_simply_def using a b by blast
qed

lemma no_double_short: "\<not> sublist [95, 95] [a]"
  by (simp add: sublist_Cons_right)

lemma label_dotted_i_first: "clean_label_name sample_runtime [304] = [105, 775]"
  by (simp add: label_core replace_char label_char_def sample_runtime_def sample_isalnum_def
      collapse_id no_double_short strip_by_def sample_lower_def)

lemma label_dotted_i_second: "clean_label_name sample_runtime [105, 775] = [105]"
  by (simp add: label_core replace_char label_char_def sample_runtime_def sample_isalnum_def
      latin1_isalnum_def nordic_def collapse_id no_double_short strip_by_def sample_lower_def
      latin1_lower_def)

text \<open>
  C10 as stated fails at the one-character string U+0130: its label is \<open>i\<close> followed
  by the combining dot U+0307, which is not alphanumeric, not an underscore and not in the
  allow-list, and the label of that label is \<open>i\<close> alone.
\<close>

theorem label_not_idempotent:
  "clean_label_name sample_runtime (clean_label_name sample_runtime [304]) \<noteq>
     clean_label_name sample_runtime [304] \<and>
   \<not> list_all (\<lambda>c. str_isalnum sample_runtime c \<or> c = 95 \<or> c \<in> set nordic)
       (clean_label_name sample_runtime [304])"
proof -
  have "\<not> str_isalnum sample_runtime 775"
    by (simp add: sample_runtime_def sample_isalnum_def)
  then show ?thesis
    by (simp add: label_dotted_i_first label_dotted_i_second nordic_def)
qed

theorem label_idempotent_simple_witness:
  "clean_label_name sample_runtime (clean_label_name sample_runtime (asc ''Foo Bar-Baz'' @ [198])) =
     clean_label_name sample_runtime (asc ''Foo Bar-Baz'' @ [198]) \<and>
   list_all (\<lambda>c. c = 95 \<or> (label_char sample_runtime c \<and> latin1_lower c = c))
     (clean_label_name sample_runtime (asc ''Foo Bar-Baz'' @ [198]))"
proof -
  have x: "set (asc ''Foo Bar-Baz'' @ [198]) \<subseteq> {c. c < 256}"
    by (simp add: asc_def)
  have u: "95 \<in> {c. c < (256::nat)}" by simp
  show ?thesis
    using label_idempotent_simple [OF sample_lowers_simply x u] by (simp add: list_all_iff)
qed

end
